theory Spec2Isabelle
  imports Complex_Main "HOL-Library.Word"
begin

unbundle bit_operations_syntax

section \<open>JavaScript values used by the live assistant\<close>

text \<open>
  A JavaScript string is a sequence of UTF-16 code units, kept here as natural numbers.
  A \<open>Uint8Array\<close> is a list of 8-bit words, an \<open>Int16Array\<close> a list of 16-bit words.
  A JavaScript number is a finite value or one of the three special values; the finite
  values are kept as reals (a 32-bit sample times 32767 is exact in a double).
\<close>

type_synonym js_string = "nat list"
type_synonym byte = "8 word"
type_synonym int16 = "16 word"

datatype js_number = Num real | PosInf | NegInf | NaN

datatype js_error =
    InvalidCharacterError
  | RangeError
  | NotSupportedError
  | InvalidStateError
  | TypeError
  | Rejected string

text \<open>\<open>Math.min\<close> and \<open>Math.max\<close> on two arguments: a NaN argument gives NaN.\<close>

fun math_min :: "js_number \<Rightarrow> js_number \<Rightarrow> js_number" where
  "math_min NaN _ = NaN"
| "math_min _ NaN = NaN"
| "math_min NegInf _ = NegInf"
| "math_min _ NegInf = NegInf"
| "math_min PosInf y = y"
| "math_min x PosInf = x"
| "math_min (Num a) (Num b) = Num (min a b)"

fun math_max :: "js_number \<Rightarrow> js_number \<Rightarrow> js_number" where
  "math_max NaN _ = NaN"
| "math_max _ NaN = NaN"
| "math_max PosInf _ = PosInf"
| "math_max _ PosInf = PosInf"
| "math_max NegInf y = y"
| "math_max x NegInf = x"
| "math_max (Num a) (Num b) = Num (max a b)"

text \<open>The product of two numbers (\<open>*\<close>): infinity times zero is NaN.\<close>

definition js_sign :: "js_number \<Rightarrow> int" where
  "js_sign x = (case x of Num a \<Rightarrow> (if a < 0 then -1 else if a = 0 then 0 else 1)
                | PosInf \<Rightarrow> 1 | NegInf \<Rightarrow> -1 | NaN \<Rightarrow> 0)"

fun js_times :: "js_number \<Rightarrow> js_number \<Rightarrow> js_number" where
  "js_times NaN _ = NaN"
| "js_times _ NaN = NaN"
| "js_times (Num a) (Num b) = Num (a * b)"
| "js_times x y =
     (if js_sign x * js_sign y = 0 then NaN
      else if js_sign x * js_sign y > 0 then PosInf else NegInf)"

text \<open>
  Storing a number into an \<open>Int16Array\<close> element (the ToInt16 conversion): NaN and the
  infinities become 0, a finite value is truncated towards zero and reduced modulo
  \<open>2 ^ 16\<close> into the signed range.
\<close>

definition js_truncate :: "real \<Rightarrow> int" where
  "js_truncate r = (if 0 \<le> r then \<lfloor>r\<rfloor> else \<lceil>r\<rceil>)"

definition to_int16 :: "js_number \<Rightarrow> int16" where
  "to_int16 x = (case x of Num r \<Rightarrow> word_of_int (js_truncate r) | _ \<Rightarrow> 0)"

section \<open>The platform's base64 functions\<close>

text \<open>
  \<open>btoa\<close> and \<open>atob\<close> belong to the browser, not to the repository. They are written
  here after the HTML standard: \<open>btoa\<close> throws on a code unit above 255 and otherwise
  emits the padded base64 text of the bytes; \<open>atob\<close> is the forgiving decoder (ASCII
  whitespace removed, one or two trailing \<open>=\<close> removed when the length is a multiple
  of four, failure on a length of one modulo four or on a character outside the alphabet,
  left-over bits of a final group of two or three characters discarded).
\<close>

definition b64_char :: "nat \<Rightarrow> nat" where
  "b64_char n =
     (if n < 26 then 65 + n
      else if n < 52 then 71 + n
      else if n < 62 then n - 4
      else if n = 62 then 43 else 47)"

definition b64_index :: "nat \<Rightarrow> nat option" where
  "b64_index c =
     (if 65 \<le> c \<and> c \<le> 90 then Some (c - 65)
      else if 97 \<le> c \<and> c \<le> 122 then Some (c - 71)
      else if 48 \<le> c \<and> c \<le> 57 then Some (c + 4)
      else if c = 43 then Some 62
      else if c = 47 then Some 63
      else None)"

fun b64_groups :: "nat list \<Rightarrow> js_string" where
  "b64_groups (a # b # c # rest) =
     b64_char (a div 4) # b64_char ((a mod 4) * 16 + b div 16)
       # b64_char ((b mod 16) * 4 + c div 64) # b64_char (c mod 64) # b64_groups rest"
| "b64_groups [a, b] =
     [b64_char (a div 4), b64_char ((a mod 4) * 16 + b div 16), b64_char ((b mod 16) * 4), 61]"
| "b64_groups [a] = [b64_char (a div 4), b64_char ((a mod 4) * 16), 61, 61]"
| "b64_groups [] = []"

definition btoa :: "js_string \<Rightarrow> js_error + js_string" where
  "btoa s = (if list_ex (\<lambda>c. 255 < c) s then Inl InvalidCharacterError else Inr (b64_groups s))"

definition ascii_whitespace :: "nat \<Rightarrow> bool" where
  "ascii_whitespace c = (c = 9 \<or> c = 10 \<or> c = 12 \<or> c = 13 \<or> c = 32)"

definition strip_padding :: "js_string \<Rightarrow> js_string" where
  "strip_padding s =
     (if length s mod 4 = 0 \<and> s \<noteq> [] \<and> last s = 61
      then (if butlast s \<noteq> [] \<and> last (butlast s) = 61 then butlast (butlast s) else butlast s)
      else s)"

definition sextet_of :: "nat \<Rightarrow> nat" where
  "sextet_of c = (case b64_index c of Some n \<Rightarrow> n | None \<Rightarrow> 0)"

fun b64_bytes :: "nat list \<Rightarrow> js_string" where
  "b64_bytes (w # x # y # z # rest) =
     (w * 4 + x div 16) # ((x mod 16) * 16 + y div 4) # ((y mod 4) * 64 + z) # b64_bytes rest"
| "b64_bytes [w, x, y] = [w * 4 + x div 16, (x mod 16) * 16 + y div 4]"
| "b64_bytes [w, x] = [w * 4 + x div 16]"
| "b64_bytes [w] = []"
| "b64_bytes [] = []"

definition atob :: "js_string \<Rightarrow> js_error + js_string" where
  "atob s =
     (let d = strip_padding (filter (\<lambda>c. \<not> ascii_whitespace c) s) in
      if length d mod 4 = 1 then Inl InvalidCharacterError
      else if list_ex (\<lambda>c. b64_index c = None) d then Inl InvalidCharacterError
      else Inr (b64_bytes (map sextet_of d)))"

section \<open>Audio helpers\<close>

text \<open>
  \<open>decode\<close>: \<open>atob\<close>, then each code unit stored into a \<open>Uint8Array\<close> (reduced modulo
  256). \<open>encode\<close>: each byte turned into a one-unit string by \<open>String.fromCharCode\<close>,
  the units concatenated, then \<open>btoa\<close>.
\<close>

definition decode :: "js_string \<Rightarrow> js_error + byte list" where
  "decode base64 =
     (case atob base64 of
        Inl e \<Rightarrow> Inl e
      | Inr binaryString \<Rightarrow> Inr (map (\<lambda>c. of_nat c) binaryString))"

definition encode :: "byte list \<Rightarrow> js_error + js_string" where
  "encode bytes = btoa (map unat bytes)"

text \<open>
  Typed-array views over one buffer are little-endian. \<open>new Int16Array(buffer)\<close> throws
  a RangeError when the byte length is odd.
\<close>

fun int16_view :: "byte list \<Rightarrow> js_error + int16 list" where
  "int16_view [] = Inr []"
| "int16_view [_] = Inl RangeError"
| "int16_view (lo # hi # rest) =
     (case int16_view rest of
        Inl e \<Rightarrow> Inl e
      | Inr ws \<Rightarrow> Inr ((ucast lo OR push_bit 8 (ucast hi)) # ws))"

definition uint8_view :: "int16 list \<Rightarrow> byte list" where
  "uint8_view ws = concat (map (\<lambda>w. [ucast w, ucast (drop_bit 8 w)]) ws)"

record audio_buffer =
  numberOfChannels :: nat
  frames :: nat
  rate :: nat
  channelData :: "real list list"

definition duration :: "audio_buffer \<Rightarrow> real" where
  "duration b = real (frames b) / real (rate b)"

text \<open>
  \<open>decodeAudioData\<close>: the frame count is the number of 16-bit samples divided by the
  channel count; \<open>createBuffer\<close> throws NotSupportedError on a channel count or a length
  of zero; sample \<open>i\<close> of a channel is the interleaved 16-bit value divided by 32768.
\<close>

definition decodeAudioData :: "byte list \<Rightarrow> nat \<Rightarrow> nat \<Rightarrow> js_error + audio_buffer" where
  "decodeAudioData data sampleRate numChannels =
     (case int16_view data of
        Inl e \<Rightarrow> Inl e
      | Inr dataInt16 \<Rightarrow>
          (let frameCount = length dataInt16 div numChannels in
           if numChannels = 0 \<or> frameCount = 0 \<or> sampleRate = 0 then Inl NotSupportedError
           else Inr \<lparr> numberOfChannels = numChannels, frames = frameCount, rate = sampleRate,
                      channelData =
                        map (\<lambda>channel.
                               map (\<lambda>i. real_of_int (sint (dataInt16 ! (i * numChannels + channel)))
                                         / 32768)
                                   [0 ..< frameCount])
                            [0 ..< numChannels] \<rparr>))"

record genai_blob =
  data :: js_string
  mimeType :: string

text \<open>
  \<open>createBlob\<close>: every sample is clamped to \<open>[-1, 1]\<close>, scaled by 32767 and stored
  into an \<open>Int16Array\<close>; the bytes of that array are base64-encoded.
\<close>

definition pcm16 :: "js_number \<Rightarrow> int16" where
  "pcm16 x = to_int16 (js_times (math_max (Num (-1)) (math_min (Num 1) x)) (Num 32767))"

definition createBlob :: "js_number list \<Rightarrow> js_error + genai_blob" where
  "createBlob samples =
     (let int16 = map pcm16 samples in
      case encode (uint8_view int16) of
        Inl e \<Rightarrow> Inl e
      | Inr b64 \<Rightarrow> Inr \<lparr> data = b64, mimeType = ''audio/pcm;rate=16000'' \<rparr>)"

section \<open>Session state of the live assistant\<close>

text \<open>
  The component's React state and refs, as one record. Objects of the platform (audio
  contexts, the session promise, tracks, buffer sources, the interval timer) are named by
  natural numbers. A \<open>MediaStream\<close> is the list of its tracks. A buffer source has been
  started exactly when it has a start time. The Active Playback Set \<open>sourcesRef\<close> is a
  JavaScript \<open>Set\<close>, kept as a list in insertion order. Time is in seconds.
\<close>

datatype facing = User | Environment

record media_track =
  track_id :: nat
  video :: bool
  enabled :: bool

record audio_source =
  source_id :: nat
  buffer_duration :: real
  start_time :: "real option"

record live_state =
  connected :: bool
  isCameraActive :: bool
  facingMode :: facing
  status :: string
  error :: "string option"
  sessionRef :: "nat option"
  audioContextRef :: "nat option"
  inputAudioContextRef :: "nat option"
  nextStartTimeRef :: real
  sourcesRef :: "audio_source list"
  streamRef :: "media_track list option"
  frameIntervalRef :: "nat option"

text \<open>What a callback does to the platform, in order.\<close>

datatype facing_constraint = Exact facing | Ideal facing

datatype media_request = AudioAndVideo facing | VideoOnly facing_constraint

datatype effect =
    TrackStop nat
  | ClearInterval nat
  | ContextClose nat
  | SourceStop nat
  | SourceStart audio_source
  | SendRealtimeInput genai_blob
  | GetUserMedia media_request
  | LiveConnect
  | CaptureStart
  | SetInterval nat
  | DrawImage nat nat
  | ToBlob
  | VideoPlay
  | ConsoleDebug string
  | ConsoleLog string
  | ConsoleError string

record outcome =
  post :: live_state
  effects :: "effect list"
  thrown :: "js_error option"

definition returns :: "live_state \<Rightarrow> effect list \<Rightarrow> outcome" where
  "returns s es = \<lparr> post = s, effects = es, thrown = None \<rparr>"

definition throws :: "live_state \<Rightarrow> effect list \<Rightarrow> js_error \<Rightarrow> outcome" where
  "throws s es e = \<lparr> post = s, effects = es, thrown = Some e \<rparr>"

definition initial_state :: live_state where
  "initial_state =
     \<lparr> connected = False, isCameraActive = False, facingMode = User,
       status = ''Ready to connect'', error = None, sessionRef = None,
       audioContextRef = None, inputAudioContextRef = None, nextStartTimeRef = 0,
       sourcesRef = [], streamRef = None, frameIntervalRef = None \<rparr>"

definition getVideoTracks :: "media_track list \<Rightarrow> media_track list" where
  "getVideoTracks tracks = filter video tracks"


section \<open>Teardown\<close>

text \<open>
  \<open>source.stop()\<close> throws InvalidStateError on a source that was never started.
  \<open>stopEverything\<close> stops each source inside \<open>try/catch\<close>; the interruption branch of
  \<open>onmessage\<close> stops them without one, so there the first throw ends the \<open>forEach\<close>.
  A numeric ref is tested for truthiness: the handle 0 would count as unset.
\<close>

definition source_stop :: "audio_source \<Rightarrow> js_error + effect list" where
  "source_stop src =
     (case start_time src of
        None \<Rightarrow> Inl InvalidStateError
      | Some _ \<Rightarrow> Inr [SourceStop (source_id src)])"

fun stop_caught :: "audio_source list \<Rightarrow> effect list" where
  "stop_caught [] = []"
| "stop_caught (src # rest) =
     (case source_stop src of Inl _ \<Rightarrow> [] | Inr es \<Rightarrow> es) @ stop_caught rest"

fun stop_each :: "audio_source list \<Rightarrow> effect list \<times> js_error option" where
  "stop_each [] = ([], None)"
| "stop_each (src # rest) =
     (case source_stop src of
        Inl e \<Rightarrow> ([], Some e)
      | Inr es \<Rightarrow> (es @ fst (stop_each rest), snd (stop_each rest)))"

definition release_session :: "live_state \<Rightarrow> live_state" where
  "release_session s = (if sessionRef s \<noteq> None then s\<lparr>sessionRef := None\<rparr> else s)"

definition release_stream :: "live_state \<Rightarrow> live_state \<times> effect list" where
  "release_stream s =
     (case streamRef s of
        Some tracks \<Rightarrow> (s\<lparr>streamRef := None\<rparr>, map (\<lambda>track. TrackStop (track_id track)) tracks)
      | None \<Rightarrow> (s, []))"

definition release_interval :: "live_state \<Rightarrow> live_state \<times> effect list" where
  "release_interval s =
     (case frameIntervalRef s of
        Some h \<Rightarrow> (if h \<noteq> 0 then (s\<lparr>frameIntervalRef := None\<rparr>, [ClearInterval h]) else (s, []))
      | None \<Rightarrow> (s, []))"

definition release_input_context :: "live_state \<Rightarrow> live_state \<times> effect list" where
  "release_input_context s =
     (case inputAudioContextRef s of
        Some c \<Rightarrow> (s\<lparr>inputAudioContextRef := None\<rparr>, [ContextClose c])
      | None \<Rightarrow> (s, []))"

definition release_output_context :: "live_state \<Rightarrow> live_state \<times> effect list" where
  "release_output_context s =
     (case audioContextRef s of
        Some c \<Rightarrow> (s\<lparr>audioContextRef := None\<rparr>, [ContextClose c])
      | None \<Rightarrow> (s, []))"

definition stopEverything :: "live_state \<Rightarrow> outcome" where
  "stopEverything s =
     (let s1 = release_session s;
          (s2, e2) = release_stream s1;
          (s3, e3) = release_interval s2;
          (s4, e4) = release_input_context s3;
          (s5, e5) = release_output_context s4;
          e6 = stop_caught (sourcesRef s5);
          s6 = s5\<lparr>sourcesRef := []\<rparr>
      in returns (s6\<lparr>connected := False, isCameraActive := False, status := ''Disconnected''\<rparr>)
                 (e2 @ e3 @ e4 @ e5 @ e6))"

section \<open>Camera controls\<close>

definition toggleCamera :: "live_state \<Rightarrow> outcome" where
  "toggleCamera s =
     (case streamRef s of
        None \<Rightarrow> returns s []
      | Some tracks \<Rightarrow>
          (case getVideoTracks tracks of
             [] \<Rightarrow> returns s []
           | t # _ \<Rightarrow>
               (let newStatus = (\<not> enabled t) in
                returns (s\<lparr>streamRef :=
                              Some (map (\<lambda>track. if video track then track\<lparr>enabled := newStatus\<rparr>
                                                  else track) tracks),
                            isCameraActive := newStatus\<rparr>) [])))"

text \<open>
  The answers of the platform to one \<open>switchCamera\<close> call: the result of the request
  with the exact constraint, the result of the relaxed request (asked only after the
  first was rejected), whether the video element is mounted and whether its \<open>play()\<close>
  is rejected.
\<close>

record switch_env =
  exactResult :: "js_error + media_track list"
  idealResult :: "js_error + media_track list"
  videoElement :: bool
  playRejected :: bool

definition switch_error :: string where
  "switch_error = ''Could not switch camera. Ensure your device has multiple cameras.''"

definition opposite :: "facing \<Rightarrow> facing" where
  "opposite currentMode = (if currentMode = User then Environment else User)"

definition request_track ::
    "switch_env \<Rightarrow> facing \<Rightarrow> (js_error + media_track list) \<times> effect list" where
  "request_track env targetMode =
     (case exactResult env of
        Inr newStream \<Rightarrow> (Inr newStream, [GetUserMedia (VideoOnly (Exact targetMode))])
      | Inl e \<Rightarrow>
          (idealResult env,
           [GetUserMedia (VideoOnly (Exact targetMode)),
            ConsoleLog ''Exact facing mode failed, falling back to ideal'',
            GetUserMedia (VideoOnly (Ideal targetMode))]))"

definition switchCamera :: "switch_env \<Rightarrow> live_state \<Rightarrow> outcome" where
  "switchCamera env s =
     (case streamRef s of
        None \<Rightarrow> returns s []
      | Some tracks \<Rightarrow>
          (let targetMode = opposite (facingMode s);
               (result, e1) = request_track env targetMode
           in case result of
                Inl err \<Rightarrow>
                  returns (s\<lparr>error := Some switch_error\<rparr>)
                          (e1 @ [ConsoleError ''Error switching camera:''])
              | Inr newStream \<Rightarrow>
                  (let (tracks', e2) =
                         (case getVideoTracks tracks of
                            [] \<Rightarrow> (tracks, [])
                          | oldVideoTrack # _ \<Rightarrow>
                              (remove1 oldVideoTrack tracks, [TrackStop (track_id oldVideoTrack)]))
                   in case getVideoTracks newStream of
                        [] \<Rightarrow>
                          returns (s\<lparr>streamRef := Some tracks', error := Some switch_error\<rparr>)
                                  (e1 @ e2 @ [ConsoleError ''Error switching camera:''])
                      | newVideoTrack # _ \<Rightarrow>
                          returns (s\<lparr>streamRef := Some (tracks' @ [newVideoTrack]),
                                      facingMode := targetMode, isCameraActive := True\<rparr>)
                                  (e1 @ e2 @
                                   (if videoElement env
                                    then VideoPlay #
                                         (if playRejected env
                                          then [ConsoleError ''Error playing video after switch:'']
                                          else [])
                                    else [])))))"

section \<open>Connecting\<close>

text \<open>
  The answers of the platform to one \<open>connect\<close> call: the two new audio contexts (or
  the error thrown while making or resuming them), the capture stream (or the rejection
  of the permission request) and the session promise returned by \<open>ai.live.connect\<close>
  (or the error it throws). Each callback is taken as one atomic step: what is awaited
  inside it is answered by the environment record.
\<close>

record connect_env =
  newContexts :: "string + nat \<times> nat"
  userMedia :: "string + media_track list"
  liveSession :: "string + nat"

definition connect_failed :: "string \<Rightarrow> live_state \<Rightarrow> effect list \<Rightarrow> outcome" where
  "connect_failed msg s es =
     (let r = stopEverything (s\<lparr>error := Some msg, status := ''Error''\<rparr>)
      in r\<lparr>effects := es @ effects r\<rparr>)"

definition connect :: "connect_env \<Rightarrow> live_state \<Rightarrow> outcome" where
  "connect env s =
     (let s0 = s\<lparr>error := None, status := ''Connecting...''\<rparr> in
      case newContexts env of
        Inl msg \<Rightarrow> connect_failed msg s0 []
      | Inr (inputAudioContext, outputAudioContext) \<Rightarrow>
          (let s1 = s0\<lparr>inputAudioContextRef := Some inputAudioContext,
                        audioContextRef := Some outputAudioContext,
                        nextStartTimeRef := 0\<rparr>;
               e1 = [GetUserMedia (AudioAndVideo (facingMode s))]
           in case userMedia env of
                Inl msg \<Rightarrow> connect_failed msg s1 e1
              | Inr stream \<Rightarrow>
                  (let s2 = s1\<lparr>streamRef := Some stream, isCameraActive := True\<rparr> in
                   case liveSession env of
                     Inl msg \<Rightarrow> connect_failed msg s2 (e1 @ [LiveConnect])
                   | Inr sessionPromise \<Rightarrow>
                       returns (s2\<lparr>sessionRef := Some sessionPromise\<rparr>) (e1 @ [LiveConnect]))))"

section \<open>Session callbacks\<close>

text \<open>\<open>onopen\<close>: the audio processor is wired and the frame timer started; the timer's
  handle is the platform's answer.\<close>

definition onopen :: "nat \<Rightarrow> live_state \<Rightarrow> outcome" where
  "onopen intervalHandle s =
     returns (s\<lparr>status := ''Live'', connected := True, frameIntervalRef := Some intervalHandle\<rparr>)
             [CaptureStart, SetInterval 1000]"

text \<open>
  One send: \<open>sessionPromise.then(session \<Rightarrow> session.sendRealtimeInput(...)).catch(...)\<close>. The
  environment says whether the send fails (the promise is rejected or the call throws);
  the \<open>catch\<close> only logs.
\<close>

definition send_media :: "js_error option \<Rightarrow> genai_blob \<Rightarrow> string \<Rightarrow> effect list" where
  "send_media sendFailure media label =
     (case sendFailure of
        None \<Rightarrow> [SendRealtimeInput media]
      | Some err \<Rightarrow> [ConsoleDebug label])"

definition onaudioprocess :: "js_number list \<Rightarrow> js_error option \<Rightarrow> live_state \<Rightarrow> outcome" where
  "onaudioprocess inputData sendFailure s =
     (if sessionRef s = None then returns s []
      else case createBlob inputData of
             Inl e \<Rightarrow> throws s [] e
           | Inr pcmBlob \<Rightarrow> returns s (send_media sendFailure pcmBlob ''Send audio error:''))"

text \<open>
  One tick of the frame timer. The environment gives \<open>document.hidden\<close>, whether the
  canvas element was mounted, the video element's intrinsic size when it is mounted, and
  whether the canvas yields a 2D context. A canvas dimension is an unsigned integer, so a
  quarter of the width is truncated.
\<close>

record tick_env =
  documentHidden :: bool
  canvasElement :: bool
  videoSize :: "(nat \<times> nat) option"
  context2d :: bool

definition first_video_track :: "live_state \<Rightarrow> media_track option" where
  "first_video_track s =
     (case streamRef s of
        None \<Rightarrow> None
      | Some tracks \<Rightarrow> (case getVideoTracks tracks of [] \<Rightarrow> None | t # _ \<Rightarrow> Some t))"

definition frameTick :: "tick_env \<Rightarrow> live_state \<Rightarrow> outcome" where
  "frameTick env s =
     (if documentHidden env \<or> sessionRef s = None then returns s []
      else case first_video_track s of
             None \<Rightarrow> returns s []
           | Some videoTrack \<Rightarrow>
               (if \<not> enabled videoTrack then returns s []
                else case videoSize env of
                       None \<Rightarrow> returns s []
                     | Some (videoWidth, videoHeight) \<Rightarrow>
                         (if \<not> canvasElement env \<or> videoWidth = 0 then returns s []
                          else if \<not> context2d env then returns s []
                          else returns s [DrawImage (videoWidth div 4) (videoHeight div 4), ToBlob])))"

text \<open>
  The continuation of \<open>toBlob\<close>: no blob, a blob whose reading fails, or the base64 text
  of the JPEG, which is sent when the session ref is still set.
\<close>

definition onFrameBlob ::
    "(js_error + js_string) option \<Rightarrow> js_error option \<Rightarrow> live_state \<Rightarrow> outcome" where
  "onFrameBlob blob sendFailure s =
     (case blob of
        None \<Rightarrow> returns s []
      | Some (Inl e) \<Rightarrow> throws s [] e
      | Some (Inr base64Data) \<Rightarrow>
          (if sessionRef s \<noteq> None
           then returns s (send_media sendFailure
                             \<lparr> data = base64Data, mimeType = ''image/jpeg'' \<rparr> ''Send video error:'')
           else returns s []))"

text \<open>
  An inbound message, with the optional fields the handler reads; every field may be
  absent, \<open>parts\<close> included. The \<open>data\<close> of a part's \<open>inlineData\<close> is the inner
  option of \<open>inlineData\<close>.
\<close>

record part =
  inlineData :: "js_string option option"

record content =
  parts :: "part list option"

record server_content =
  modelTurn :: "content option"
  interrupted :: "bool option"

record live_server_message =
  serverContent :: "server_content option"

text \<open>
  \<open>message.serverContent?.modelTurn?.parts[0]?.inlineData?.data\<close>: the optional chain
  yields undefined for an absent \<open>serverContent\<close>, \<open>modelTurn\<close>, first part,
  \<open>inlineData\<close> or \<open>data\<close>, but \<open>parts[0]\<close> is read without one, so a model turn
  without \<open>parts\<close> throws a TypeError.
\<close>

definition inline_audio :: "live_server_message \<Rightarrow> js_error + js_string option" where
  "inline_audio message =
     (case serverContent message of
        None \<Rightarrow> Inr None
      | Some sc \<Rightarrow>
          (case modelTurn sc of
             None \<Rightarrow> Inr None
           | Some turn \<Rightarrow>
               (case parts turn of
                  None \<Rightarrow> Inl TypeError
                | Some [] \<Rightarrow> Inr None
                | Some (p # _) \<Rightarrow>
                    (case inlineData p of None \<Rightarrow> Inr None | Some blob \<Rightarrow> Inr blob))))"

definition is_interrupted :: "live_server_message \<Rightarrow> bool" where
  "is_interrupted message =
     (case serverContent message of None \<Rightarrow> False | Some sc \<Rightarrow> interrupted sc = Some True)"

text \<open>
  The first half of \<open>onmessage\<close>: a non-empty payload is decoded and scheduled at the
  maximum of the cursor and the playback clock. It throws when the payload cannot be read
  from the message, ends the handler early when there is no output context, and throws
  when the payload cannot be decoded (the cursor has been moved to the maximum by then).
\<close>

datatype flow = Continue | Return | Throw js_error

definition schedule_audio ::
    "real \<Rightarrow> nat \<Rightarrow> live_server_message \<Rightarrow> live_state \<Rightarrow> live_state \<times> effect list \<times> flow" where
  "schedule_audio currentTime newSource message s =
     (case inline_audio message of
        Inl e \<Rightarrow> (s, [], Throw e)
      | Inr None \<Rightarrow> (s, [], Continue)
      | Inr (Some base64EncodedAudioString) \<Rightarrow>
          (if base64EncodedAudioString = [] then (s, [], Continue)
           else case audioContextRef s of
                  None \<Rightarrow> (s, [], Return)
                | Some audioCtx \<Rightarrow>
                    (let s1 = s\<lparr>nextStartTimeRef := max (nextStartTimeRef s) currentTime\<rparr> in
                     case decode base64EncodedAudioString of
                       Inl e \<Rightarrow> (s1, [], Throw e)
                     | Inr bytes \<Rightarrow>
                         (case decodeAudioData bytes 24000 1 of
                            Inl e \<Rightarrow> (s1, [], Throw e)
                          | Inr audioBuffer \<Rightarrow>
                              (let source = \<lparr> source_id = newSource,
                                              buffer_duration = duration audioBuffer,
                                              start_time = Some (nextStartTimeRef s1) \<rparr>
                               in (s1\<lparr>nextStartTimeRef := nextStartTimeRef s1 + duration audioBuffer,
                                      sourcesRef := sourcesRef s1 @ [source]\<rparr>,
                                   [SourceStart source],
                                   Continue))))))"

definition handle_interruption :: "live_server_message \<Rightarrow> live_state \<Rightarrow> outcome" where
  "handle_interruption message s =
     (if is_interrupted message
      then (case stop_each (sourcesRef s) of
              (es, Some e) \<Rightarrow> throws s es e
            | (es, None) \<Rightarrow> returns (s\<lparr>sourcesRef := [], nextStartTimeRef := 0\<rparr>) es)
      else returns s [])"

definition onmessage :: "real \<Rightarrow> nat \<Rightarrow> live_server_message \<Rightarrow> live_state \<Rightarrow> outcome" where
  "onmessage currentTime newSource message s =
     (case schedule_audio currentTime newSource message s of
        (s1, e1, Return) \<Rightarrow> returns s1 e1
      | (s1, e1, Throw e) \<Rightarrow> throws s1 e1 e
      | (s1, e1, Continue) \<Rightarrow>
          (let r = handle_interruption message s1 in r\<lparr>effects := e1 @ effects r\<rparr>))"

text \<open>The \<open>ended\<close> listener of a source removes it from the set.\<close>

definition onended :: "nat \<Rightarrow> live_state \<Rightarrow> outcome" where
  "onended source s =
     returns (s\<lparr>sourcesRef := filter (\<lambda>src. source_id src \<noteq> source) (sourcesRef s)\<rparr>) []"

definition onclose :: "live_state \<Rightarrow> outcome" where
  "onclose s = returns (s\<lparr>status := ''Disconnected'', connected := False\<rparr>) []"

definition onerror :: "live_state \<Rightarrow> outcome" where
  "onerror s =
     (let r = stopEverything
                (s\<lparr>error := Some ''Connection error occurred. Please check your network.''\<rparr>)
      in r\<lparr>effects := ConsoleError ''Live API Error'' # effects r\<rparr>)"

definition onrejected :: "live_state \<Rightarrow> outcome" where
  "onrejected s =
     (let r = stopEverything (s\<lparr>error := Some ''Failed to connect to Gemini Live API.''\<rparr>)
      in r\<lparr>effects := ConsoleError ''Connection failed'' # effects r\<rparr>)"

section \<open>The events of one session\<close>

datatype event =
    Open nat
  | Message real nat live_server_message
  | Ended nat
  | Closed
  | Errored
  | ConnectRejected
  | Stop
  | Toggle
  | Switch switch_env
  | AudioBlock "js_number list" "js_error option"
  | Tick tick_env
  | FrameBlob "(js_error + js_string) option" "js_error option"

fun handle :: "event \<Rightarrow> live_state \<Rightarrow> outcome" where
  "handle (Open h) s = onopen h s"
| "handle (Message t n m) s = onmessage t n m s"
| "handle (Ended n) s = onended n s"
| "handle Closed s = onclose s"
| "handle Errored s = onerror s"
| "handle ConnectRejected s = onrejected s"
| "handle Stop s = stopEverything s"
| "handle Toggle s = toggleCamera s"
| "handle (Switch env) s = switchCamera env s"
| "handle (AudioBlock xs f) s = onaudioprocess xs f s"
| "handle (Tick env) s = frameTick env s"
| "handle (FrameBlob b f) s = onFrameBlob b f s"

text \<open>
  The states the mounted component reaches: from the initial state, \<open>connect\<close> and every
  callback may run in any order. The interface offers \<open>connect\<close> whenever the connected
  flag is off, which \<open>onclose\<close> turns off without clearing anything, so \<open>connect\<close> may
  run on a playback set that still holds chunks.
\<close>

inductive component_state :: "live_state \<Rightarrow> bool" where
  mounted: "component_state initial_state"
| connected: "component_state s \<Longrightarrow> component_state (post (connect env s))"
| handled: "component_state s \<Longrightarrow> component_state (post (handle ev s))"

text \<open>
  Among them, the states of a session that \<open>connect\<close> started on an empty playback
  set (a freshly mounted component, or one torn down by \<open>stopEverything\<close>), up to the
  next \<open>connect\<close>. A reconnection after \<open>onclose\<close> while chunks are queued reaches
  states outside this set.
\<close>

inductive clean_session_state :: "live_state \<Rightarrow> bool" where
  started: "component_state s \<Longrightarrow> sourcesRef s = [] \<Longrightarrow>
            clean_session_state (post (connect env s))"
| after: "clean_session_state s \<Longrightarrow> clean_session_state (post (handle ev s))"

section \<open>Notions used to state the properties\<close>

text \<open>A sample above 1 (also plus infinity), a sample below -1 (also minus infinity).\<close>

definition above_range :: "js_number \<Rightarrow> bool" where
  "above_range x = (case x of Num r \<Rightarrow> 1 < r | PosInf \<Rightarrow> True | _ \<Rightarrow> False)"

definition below_range :: "js_number \<Rightarrow> bool" where
  "below_range x = (case x of Num r \<Rightarrow> r < -1 | NegInf \<Rightarrow> True | _ \<Rightarrow> False)"

text \<open>The scheduled start and end of a chunk.\<close>

definition chunk_start :: "audio_source \<Rightarrow> real" where
  "chunk_start src = (case start_time src of Some t \<Rightarrow> t | None \<Rightarrow> 0)"

definition chunk_end :: "audio_source \<Rightarrow> real" where
  "chunk_end src = chunk_start src + buffer_duration src"

text \<open>
  A sequence of inbound messages, each with the playback clock read when it is handled and
  the source object created for it, handled one after the other; an exception ends only
  the handler in which it is thrown. \<open>scheduled\<close> lists the chunks started, in order.
\<close>

type_synonym arrival = "real \<times> nat \<times> live_server_message"

fun receive :: "arrival list \<Rightarrow> live_state \<Rightarrow> live_state \<times> effect list" where
  "receive [] s = (s, [])"
| "receive ((t, n, m) # rest) s =
     (fst (receive rest (post (onmessage t n m s))),
      effects (onmessage t n m s) @ snd (receive rest (post (onmessage t n m s))))"

fun started_sources :: "effect list \<Rightarrow> audio_source list" where
  "started_sources [] = []"
| "started_sources (SourceStart src # es) = src # started_sources es"
| "started_sources (_ # es) = started_sources es"

definition scheduled :: "arrival list \<Rightarrow> live_state \<Rightarrow> audio_source list" where
  "scheduled arrivals s = started_sources (snd (receive arrivals s))"

definition uninterrupted :: "arrival list \<Rightarrow> bool" where
  "uninterrupted arrivals = list_all (\<lambda>(t, n, m). \<not> is_interrupted m) arrivals"

text \<open>The message is readable (a model turn, if present, has its \<open>parts\<close>) and its
  payload is scheduled: there is none to schedule, or there is an output context and the
  payload decodes to an audio buffer.\<close>

definition decodes :: "js_string \<Rightarrow> bool" where
  "decodes base64 =
     (case decode base64 of
        Inl _ \<Rightarrow> False
      | Inr bytes \<Rightarrow> (case decodeAudioData bytes 24000 1 of Inl _ \<Rightarrow> False | Inr _ \<Rightarrow> True))"

definition payload_scheduled :: "live_server_message \<Rightarrow> live_state \<Rightarrow> bool" where
  "payload_scheduled message s =
     (case inline_audio message of
        Inl _ \<Rightarrow> False
      | Inr None \<Rightarrow> True
      | Inr (Some base64) \<Rightarrow> base64 = [] \<or> (audioContextRef s \<noteq> None \<and> decodes base64))"

definition all_started :: "audio_source list \<Rightarrow> bool" where
  "all_started srcs =
     list_all (\<lambda>src. case start_time src of None \<Rightarrow> False | Some _ \<Rightarrow> True) srcs"

text \<open>An event that carries the interruption flag.\<close>

fun interrupting :: "event \<Rightarrow> bool" where
  "interrupting (Message t n m) = is_interrupted m"
| "interrupting _ = False"

text \<open>The camera-enabled flag read by the frame timer: the first video track's.\<close>

definition camera_enabled :: "live_state \<Rightarrow> bool" where
  "camera_enabled s = (case first_video_track s of Some t \<Rightarrow> enabled t | None \<Rightarrow> False)"




text \<open>Concrete inputs: a message with an optional payload and the interruption flag, a
  live session with one queued chunk, and the base64 text \<open>AAA=\<close> of one silent frame.\<close>

definition server_message :: "js_string option \<Rightarrow> bool \<Rightarrow> live_server_message" where
  "server_message payload flag =
     \<lparr> serverContent =
         Some \<lparr> modelTurn = (case payload of
                               None \<Rightarrow> None
                             | Some d \<Rightarrow> Some \<lparr> parts = Some [\<lparr> inlineData = Some (Some d) \<rparr>] \<rparr>),
                interrupted = Some flag \<rparr> \<rparr>"

definition one_frame :: js_string where
  "one_frame = [65, 65, 65, 61]"

definition live_example :: live_state where
  "live_example =
     \<lparr> connected = True, isCameraActive = True, facingMode = User, status = ''Live'',
       error = None, sessionRef = Some 1, audioContextRef = Some 2,
       inputAudioContextRef = Some 3, nextStartTimeRef = 1,
       sourcesRef = [\<lparr> source_id = 7, buffer_duration = 1 / 2, start_time = Some (1 / 2) \<rparr>],
       streamRef = Some [\<lparr> track_id = 5, video = False, enabled = True \<rparr>,
                         \<lparr> track_id = 6, video = True, enabled = True \<rparr>],
       frameIntervalRef = Some 4 \<rparr>"

definition visible_tick :: tick_env where
  "visible_tick =
     \<lparr> documentHidden = False, canvasElement = True, videoSize = Some (640, 480),
       context2d = True \<rparr>"


text \<open>The playback set is ordered in time: each queued chunk ends before every chunk
  queued after it starts, and none ends after the cursor.\<close>

definition schedule_ordered :: "live_state \<Rightarrow> bool" where
  "schedule_ordered s =
     (sorted_wrt (\<lambda>a b. chunk_end a \<le> chunk_start b) (sourcesRef s)
      \<and> list_all (\<lambda>a. chunk_end a \<le> nextStartTimeRef s) (sourcesRef s))"

text \<open>More concrete inputs: the chunk of one frame, and a \<open>connect\<close> that goes through.\<close>

definition frame_chunk :: "nat \<Rightarrow> real \<Rightarrow> audio_source" where
  "frame_chunk n t = \<lparr> source_id = n, buffer_duration = 1 / 24000, start_time = Some t \<rparr>"

definition granted_env :: connect_env where
  "granted_env =
     \<lparr> newContexts = Inr (3, 2),
       userMedia = Inr [\<lparr> track_id = 5, video = False, enabled = True \<rparr>,
                         \<lparr> track_id = 6, video = True, enabled = True \<rparr>],
       liveSession = Inr 1 \<rparr>"

text \<open>A session with one queued chunk on which the transport's closed signal has fired.\<close>

definition closed_example :: live_state where
  "closed_example =
     post (handle Closed
       (post (handle (Message 2 8 (server_message (Some one_frame) False))
          (post (connect granted_env initial_state)))))"

text \<open>The base64 text of a byte sequence in two parts: the 6-bit groups of the bytes,
  and the padding that fills the last group of four characters.\<close>

fun sextets :: "nat list \<Rightarrow> nat list" where
  "sextets (a # b # c # rest) =
     a div 4 # ((a mod 4) * 16 + b div 16) # ((b mod 16) * 4 + c div 64) # c mod 64
       # sextets rest"
| "sextets [a, b] = [a div 4, (a mod 4) * 16 + b div 16, (b mod 16) * 4]"
| "sextets [a] = [a div 4, (a mod 4) * 16]"
| "sextets [] = []"

fun padding :: "nat list \<Rightarrow> js_string" where
  "padding (a # b # c # rest) = padding rest"
| "padding [a, b] = [61]"
| "padding [a] = [61, 61]"
| "padding [] = []"

section \<open>Base64 transport\<close>

lemma b64_groups_split: "b64_groups xs = map b64_char (sextets xs) @ padding xs"
  by (induction xs rule: b64_groups.induct) simp_all

lemma b64_groups_length: "length (b64_groups xs) mod 4 = 0"
  by (induction xs rule: b64_groups.induct) simp_all

lemma sextets_length: "length (sextets xs) mod 4 \<noteq> 1"
  by (induction xs rule: sextets.induct) simp_all

lemma padding_cases: "padding xs = [] \<or> padding xs = [61] \<or> padding xs = [61, 61]"
  by (induction xs rule: padding.induct) simp_all

lemma b64_char_not_pad: "b64_char n \<noteq> 61"
  by (simp add: b64_char_def; arith)

lemma b64_char_not_space: "\<not> ascii_whitespace (b64_char n)"
  by (simp add: b64_char_def ascii_whitespace_def; arith)

lemma b64_index_char: "n < 64 \<Longrightarrow> b64_index (b64_char n) = Some n"
  by (simp add: b64_char_def b64_index_def; arith)

lemma sextets_bound: "\<forall>x \<in> set xs. x < 256 \<Longrightarrow> \<forall>n \<in> set (sextets xs). n < 64"
proof (induction xs rule: sextets.induct)
  case (1 a b c rest)
  have "a div 4 < 64" "b div 16 < 16" "c div 64 < 4" using 1 by auto
  moreover have "(a mod 4) * 16 + b div 16 < 64"
    using \<open>b div 16 < 16\<close> mod_less_divisor [of 4 a] by linarith
  moreover have "(b mod 16) * 4 + c div 64 < 64"
    using \<open>c div 64 < 4\<close> mod_less_divisor [of 16 b] by linarith
  ultimately show ?case using 1 by simp
next
  case (2 a b)
  have "a div 4 < 64" "b div 16 < 16" using 2 by auto
  moreover have "(a mod 4) * 16 + b div 16 < 64"
    using \<open>b div 16 < 16\<close> mod_less_divisor [of 4 a] by linarith
  moreover have "(b mod 16) * 4 < 64"
    using mod_less_divisor [of 16 b] by linarith
  ultimately show ?case by simp
next
  case (3 a)
  have "a div 4 < 64" using 3 by auto
  moreover have "(a mod 4) * 16 < 64"
    using mod_less_divisor [of 4 a] by linarith
  ultimately show ?case by simp
qed simp

lemma regroup_first: "b < 256 \<Longrightarrow> a div 4 * 4 + ((a mod 4) * 16 + b div 16) div 16 = (a :: nat)"
proof -
  assume "b < 256"
  then have "b div 16 < 16" by auto
  then show ?thesis by simp
qed

lemma regroup_second:
  "b < 256 \<Longrightarrow> c < 256 \<Longrightarrow>
   (((a mod 4) * 16 + b div 16) mod 16) * 16 + ((b mod 16) * 4 + c div 64) div 4 = (b :: nat)"
proof -
  assume "b < 256" "c < 256"
  then have "b div 16 < 16" "c div 64 < 4" by auto
  then show ?thesis by simp
qed

lemma regroup_third: "c < 256 \<Longrightarrow> (((b mod 16) * 4 + c div 64) mod 4) * 64 + c mod 64 = (c :: nat)"
proof -
  assume "c < 256"
  then have "c div 64 < 4" by auto
  then show ?thesis by simp
qed

lemma regroup_second_last:
  "b < 256 \<Longrightarrow> (((a mod 4) * 16 + b div 16) mod 16) * 16 + ((b mod 16) * 4) div 4 = (b :: nat)"
proof -
  assume "b < 256"
  then have "b div 16 < 16" by auto
  then show ?thesis by simp
qed

lemma regroup_first_last: "a div 4 * 4 + ((a mod 4) * 16) div 16 = (a :: nat)"
  by simp

lemma b64_bytes_sextets: "\<forall>x \<in> set xs. x < 256 \<Longrightarrow> b64_bytes (sextets xs) = xs"
proof (induction xs rule: sextets.induct)
  case (1 a b c rest)
  then have bc: "b < 256" "c < 256" by simp_all
  from regroup_first [OF bc(1), of a] regroup_second [OF bc, of a] regroup_third [OF bc(2), of b] 1
  show ?case by simp
next
  case (2 a b)
  then have b: "b < 256" by simp
  from regroup_first [OF b, of a] regroup_second_last [OF b, of a]
  show ?case by simp
next
  case (3 a)
  then show ?case by (simp add: regroup_first_last)
qed simp

lemma strip_padding_groups:
  assumes "length (map b64_char ss @ pad) mod 4 = 0"
    and "pad = [] \<or> pad = [61] \<or> pad = [61, 61]"
  shows "strip_padding (map b64_char ss @ pad) = map b64_char ss"
proof -
  have last_char: "ss \<noteq> [] \<Longrightarrow> last (map b64_char ss) \<noteq> 61"
    by (simp add: last_map b64_char_not_pad)
  from assms(2) consider "pad = []" | "pad = [61]" | "pad = [61, 61]" by blast
  then show ?thesis
  proof cases
    case 1
    then show ?thesis using last_char by (cases "ss = []") (auto simp: strip_padding_def)
  next
    case 2
    then show ?thesis using last_char assms(1)
      by (cases "ss = []") (auto simp: strip_padding_def butlast_append)
  next
    case 3
    have "butlast (map b64_char ss @ [61, 61]) = map b64_char ss @ [61]"
      by (simp add: butlast_append)
    then show ?thesis using 3 assms(1)
      by (simp add: strip_padding_def)
  qed
qed

lemma atob_groups:
  assumes "\<forall>x \<in> set xs. x < 256"
  shows "atob (b64_groups xs) = Inr xs"
proof -
  let ?body = "map b64_char (sextets xs)"
  have clean: "filter (\<lambda>c. \<not> ascii_whitespace c) (b64_groups xs) = b64_groups xs"
  proof -
    have "\<forall>c \<in> set (padding xs). \<not> ascii_whitespace c"
      using padding_cases [of xs] by (auto simp: ascii_whitespace_def)
    then show ?thesis
      by (auto simp: b64_groups_split b64_char_not_space filter_id_conv)
  qed
  have stripped: "strip_padding (b64_groups xs) = ?body"
  proof -
    have "length (?body @ padding xs) mod 4 = 0"
      using b64_groups_length [of xs] by (simp add: b64_groups_split)
    then show ?thesis
      unfolding b64_groups_split using padding_cases [of xs] by (rule strip_padding_groups)
  qed
  have small: "\<forall>n \<in> set (sextets xs). n < 64"
    by (rule sextets_bound [OF assms])
  have len: "length ?body mod 4 \<noteq> 1"
    using sextets_length [of xs] by simp
  have known: "\<not> list_ex (\<lambda>c. b64_index c = None) ?body"
    using small by (auto simp: list_ex_iff b64_index_char)
  have recovered: "map (sextet_of \<circ> b64_char) (sextets xs) = sextets xs"
    using small by (simp add: sextet_of_def b64_index_char map_idI)
  show ?thesis
    using len known
    by (simp add: atob_def clean stripped recovered b64_bytes_sextets [OF assms])
qed

lemma unat_byte: "unat (b :: byte) < 256"
  using unsigned_less [of b, where 'a = nat] by simp

lemma btoa_bytes: "btoa (map unat (bs :: byte list)) = Inr (b64_groups (map unat bs))"
proof -
  have "\<not> list_ex (\<lambda>c. 255 < c) (map unat bs)"
  proof (induction bs)
    case (Cons b bs)
    have "unat b < 256"
      using unsigned_less [of b, where 'a = nat] by simp
    with Cons show ?case by simp
  qed simp
  then show ?thesis by (simp add: btoa_def)
qed

text \<open>
  C10. For every byte array, \<open>encode\<close> returns a base64 string (it never throws), and
  \<open>decode\<close> of that string returns exactly the bytes.
\<close>

theorem decode_encode:
  "\<exists>base64. encode bytes = Inr base64 \<and> decode base64 = Inr bytes"
proof -
  have "\<forall>x \<in> set (map unat bytes). x < 256"
    by (simp add: unat_byte)
  then have "atob (b64_groups (map unat bytes)) = Inr (map unat bytes)"
    by (rule atob_groups)
  then have "decode (b64_groups (map unat bytes)) = Inr bytes"
    by (simp add: decode_def comp_def)
  then show ?thesis
    by (simp add: encode_def btoa_bytes)
qed

section \<open>Outbound audio encoding\<close>

lemma clamp_above: "above_range x \<Longrightarrow> math_max (Num (-1)) (math_min (Num 1) x) = Num 1"
  by (cases x) (auto simp: above_range_def)

lemma clamp_below: "below_range x \<Longrightarrow> math_max (Num (-1)) (math_min (Num 1) x) = Num (-1)"
  by (cases x) (auto simp: below_range_def)

lemma sint_truncate:
  assumes "-1 \<le> c" "c \<le> 1"
  shows "sint (word_of_int (js_truncate (c * 32767)) :: int16) = js_truncate (c * 32767)"
proof -
  let ?k = "js_truncate (c * 32767)"
  have "- 32767 \<le> c * 32767" "c * 32767 \<le> 32767"
    using assms by auto
  then have "- 32767 \<le> ?k" "?k \<le> 32767"
    unfolding js_truncate_def
    by (auto simp: le_floor_iff floor_le_iff ceiling_le_iff le_ceiling_iff)
  then show ?thesis
    by (simp add: sint_sbintrunc' signed_take_bit_int_eq_self)
qed

lemma createBlob_returns:
  "createBlob xs = Inr \<lparr> data = b64_groups (map unat (uint8_view (map pcm16 xs))),
                         mimeType = ''audio/pcm;rate=16000'' \<rparr>"
  by (simp add: createBlob_def encode_def btoa_bytes)

lemma int16_halves:
  "(ucast (ucast w :: byte) OR push_bit 8 (ucast (ucast (drop_bit 8 w) :: byte))) = (w :: int16)"
  by (rule bit_word_eqI) (auto simp: bit_simps)

lemma int16_view_uint8_view: "int16_view (uint8_view ws) = Inr ws"
  by (induction ws) (simp_all add: uint8_view_def int16_halves)

text \<open>What \<open>createBlob\<close> puts on the wire: the receiver that decodes the base64 text
  and views the bytes as 16-bit integers reads the converted samples, one per sample.\<close>

lemma createBlob_wire:
  "\<exists>blob bytes. createBlob samples = Inr blob \<and> decode (data blob) = Inr bytes
      \<and> int16_view bytes = Inr (map pcm16 samples)"
proof -
  let ?bytes = "uint8_view (map pcm16 samples)"
  have "\<forall>x \<in> set (map unat ?bytes). x < 256"
    by (simp add: unat_byte)
  then have "atob (b64_groups (map unat ?bytes)) = Inr (map unat ?bytes)"
    by (rule atob_groups)
  then have "decode (b64_groups (map unat ?bytes)) = Inr ?bytes"
    by (simp add: decode_def comp_def)
  then show ?thesis
    by (simp add: createBlob_returns int16_view_uint8_view)
qed

text \<open>
  C2. \<open>createBlob\<close> never throws, and the 16-bit integers it encodes are the converted
  samples. A captured sample above 1 is converted to 32767 and a sample below -1 to
  -32767, the negative end of the encoder's symmetric scale (the scale factor is 32767 on
  both sides, so -32768 itself is never produced). The stored 16-bit value is always the
  truncated product of the clamped sample and 32767 itself: the conversion to 16 bits
  never wraps.
\<close>

theorem pcm16_clamps:
  "(\<exists>blob bytes. createBlob samples = Inr blob \<and> decode (data blob) = Inr bytes
       \<and> int16_view bytes = Inr (map pcm16 samples))
   \<and> (above_range x \<longrightarrow> sint (pcm16 x) = 32767)
   \<and> (below_range x \<longrightarrow> sint (pcm16 x) = - 32767)
   \<and> (x = Num r \<longrightarrow> sint (pcm16 x) = js_truncate (max (-1) (min 1 r) * 32767))"
proof (intro conjI impI)
  show "\<exists>blob bytes. createBlob samples = Inr blob \<and> decode (data blob) = Inr bytes
       \<and> int16_view bytes = Inr (map pcm16 samples)"
    by (rule createBlob_wire)
next
  assume "above_range x"
  then show "sint (pcm16 x) = 32767"
    by (simp add: pcm16_def clamp_above to_int16_def js_truncate_def)
next
  assume "below_range x"
  then show "sint (pcm16 x) = - 32767"
    by (simp add: pcm16_def clamp_below to_int16_def js_truncate_def)
next
  assume "x = Num r"
  then show "sint (pcm16 x) = js_truncate (max (-1) (min 1 r) * 32767)"
    using sint_truncate [of "max (-1) (min 1 r)"]
    by (simp add: pcm16_def to_int16_def)
qed

theorem pcm16_clamps_witness:
  "above_range (Num 2) \<and> sint (pcm16 (Num 2)) = 32767
   \<and> below_range (Num (-3)) \<and> sint (pcm16 (Num (-3))) = - 32767
   \<and> sint (pcm16 (Num (1/2))) = 16383"
  using pcm16_clamps [where x = "Num 2"] pcm16_clamps [where x = "Num (-3)"]
    pcm16_clamps [where x = "Num (1/2)" and r = "1/2"]
  by (simp add: above_range_def below_range_def js_truncate_def)

section \<open>Teardown\<close>

lemmas release_defs = release_session_def release_stream_def release_interval_def
  release_input_context_def release_output_context_def

lemma stopEverything_thrown: "thrown (stopEverything s) = None"
  by (simp add: stopEverything_def returns_def Let_def split: prod.splits)

lemma stopEverything_refs:
  "sessionRef (post (stopEverything s)) = None"
  "streamRef (post (stopEverything s)) = None"
  "inputAudioContextRef (post (stopEverything s)) = None"
  "audioContextRef (post (stopEverything s)) = None"
  "sourcesRef (post (stopEverything s)) = []"
  "frameIntervalRef (post (stopEverything s)) = (if frameIntervalRef s = Some 0 then Some 0 else None)"
  "nextStartTimeRef (post (stopEverything s)) = nextStartTimeRef s"
  by (auto simp: stopEverything_def returns_def Let_def release_defs
           split: prod.splits option.splits if_splits)

lemma stopEverything_flags:
  "\<not> connected (post (stopEverything s))"
  "\<not> isCameraActive (post (stopEverything s))"
  "status (post (stopEverything s)) = ''Disconnected''"
  by (auto simp: stopEverything_def returns_def Let_def release_defs
           split: prod.splits option.splits if_splits)

lemma stopEverything_quiet:
  assumes "sessionRef s = None" "streamRef s = None" "inputAudioContextRef s = None"
    "audioContextRef s = None" "sourcesRef s = []"
    "frameIntervalRef s = None \<or> frameIntervalRef s = Some 0"
    "\<not> connected s" "\<not> isCameraActive s" "status s = ''Disconnected''"
  shows "stopEverything s = returns s []"
  using assms
  by (auto simp: stopEverything_def returns_def Let_def release_defs
           split: prod.splits option.splits if_splits)

text \<open>
  C7. \<open>stopEverything\<close> never throws, the first call or the second. After the first call
  the session, the stream, both audio contexts and the playback set are null or empty,
  and so is the interval ref whenever the timer handle is not 0 (the platform hands out
  positive handles). A second call in succession changes nothing and releases nothing.
\<close>

theorem stopEverything_twice:
  "thrown (stopEverything s) = None
   \<and> thrown (stopEverything (post (stopEverything s))) = None
   \<and> stopEverything (post (stopEverything s)) = returns (post (stopEverything s)) []
   \<and> sessionRef (post (stopEverything s)) = None
   \<and> streamRef (post (stopEverything s)) = None
   \<and> inputAudioContextRef (post (stopEverything s)) = None
   \<and> audioContextRef (post (stopEverything s)) = None
   \<and> sourcesRef (post (stopEverything s)) = []
   \<and> (frameIntervalRef s \<noteq> Some 0 \<longrightarrow> frameIntervalRef (post (stopEverything s)) = None)"
proof -
  have "stopEverything (post (stopEverything s)) = returns (post (stopEverything s)) []"
    by (rule stopEverything_quiet) (simp_all add: stopEverything_refs stopEverything_flags)
  then show ?thesis
    by (simp add: stopEverything_thrown stopEverything_refs returns_def)
qed

theorem stopEverything_twice_witness:
  "frameIntervalRef live_example \<noteq> Some 0
   \<and> frameIntervalRef (post (stopEverything live_example)) = None
   \<and> effects (stopEverything live_example)
       = [TrackStop 5, TrackStop 6, ClearInterval 4, ContextClose 3, ContextClose 2, SourceStop 7]
   \<and> effects (stopEverything (post (stopEverything live_example))) = []"
  using stopEverything_twice [of live_example]
  by (simp add: live_example_def stopEverything_def returns_def Let_def release_defs
                source_stop_def)

text \<open>
  C4. When the transport's closed signal fires in a live session, \<open>onclose\<close> only sets
  the status and the connected flag: no track is stopped, the frame timer is not cleared,
  neither audio context is closed, and the queued source stays in the playback set. The
  error callback, on the same state, releases all of them.
\<close>

theorem onclose_keeps_resources:
  "effects (onclose live_example) = []
   \<and> post (onclose live_example) = live_example\<lparr>status := ''Disconnected'', connected := False\<rparr>
   \<and> streamRef (post (onclose live_example)) = streamRef live_example
   \<and> frameIntervalRef (post (onclose live_example)) = Some 4
   \<and> inputAudioContextRef (post (onclose live_example)) = Some 3
   \<and> audioContextRef (post (onclose live_example)) = Some 2
   \<and> sourcesRef (post (onclose live_example)) = sourcesRef live_example
   \<and> sourcesRef live_example \<noteq> []
   \<and> effects (onerror live_example)
       = [ConsoleError ''Live API Error'', TrackStop 5, TrackStop 6, ClearInterval 4,
          ContextClose 3, ContextClose 2, SourceStop 7]"
  by (simp add: live_example_def onclose_def onerror_def stopEverything_def returns_def Let_def
                release_defs source_stop_def)

section \<open>Outbound producers\<close>

text \<open>
  C6. A tick of the frame timer that finds the page hidden, or the first video track
  disabled (or absent), returns at once: nothing is drawn, no blob is requested, so no
  frame of that tick is sent, and the state is untouched.
\<close>

theorem frameTick_gated:
  "documentHidden env \<or> \<not> camera_enabled s \<Longrightarrow> frameTick env s = returns s []"
  by (auto simp: frameTick_def camera_enabled_def split: option.splits)

theorem frameTick_gated_witness:
  "documentHidden (visible_tick\<lparr>documentHidden := True\<rparr>)
   \<and> frameTick (visible_tick\<lparr>documentHidden := True\<rparr>) live_example = returns live_example []
   \<and> \<not> camera_enabled (post (toggleCamera live_example))
   \<and> frameTick visible_tick (post (toggleCamera live_example))
       = returns (post (toggleCamera live_example)) []
   \<and> effects (frameTick visible_tick live_example) = [DrawImage 160 120, ToBlob]"
  using frameTick_gated [of "visible_tick\<lparr>documentHidden := True\<rparr>" live_example]
    frameTick_gated [of visible_tick "post (toggleCamera live_example)"]
  by (simp add: live_example_def visible_tick_def camera_enabled_def first_video_track_def
                getVideoTracks_def toggleCamera_def returns_def frameTick_def)

text \<open>
  C8. A failed send of an audio block or of a video frame is caught and logged, nothing
  more: the handler does not throw, the state (session, producers' timer, stream,
  contexts, playback set) is exactly what it was, and the only effect is the debug log.
\<close>

theorem send_failure_is_logged:
  "post (onaudioprocess inputData (Some err) s) = s
   \<and> thrown (onaudioprocess inputData (Some err) s) = None
   \<and> (sessionRef s \<noteq> None \<longrightarrow>
        effects (onaudioprocess inputData (Some err) s) = [ConsoleDebug ''Send audio error:''])
   \<and> post (onFrameBlob (Some (Inr base64Data)) (Some err) s) = s
   \<and> thrown (onFrameBlob (Some (Inr base64Data)) (Some err) s) = None
   \<and> (sessionRef s \<noteq> None \<longrightarrow>
        effects (onFrameBlob (Some (Inr base64Data)) (Some err) s)
          = [ConsoleDebug ''Send video error:''])"
  by (simp add: onaudioprocess_def onFrameBlob_def createBlob_returns returns_def send_media_def)

theorem send_failure_is_logged_witness:
  "sessionRef live_example \<noteq> None
   \<and> onaudioprocess [Num 2, NaN] (Some (Rejected ''closed'')) live_example
       = returns live_example [ConsoleDebug ''Send audio error:'']
   \<and> onFrameBlob (Some (Inr one_frame)) (Some (Rejected ''closed'')) live_example
       = returns live_example [ConsoleDebug ''Send video error:'']"
  using send_failure_is_logged [of "[Num 2, NaN]" "Rejected ''closed''" live_example one_frame]
  by (simp add: live_example_def onaudioprocess_def onFrameBlob_def createBlob_returns
                returns_def send_media_def)

section \<open>Camera switch\<close>











section \<open>Inbound audio scheduling\<close>

lemma duration_nonneg: "0 \<le> duration b"
  by (simp add: duration_def)

text \<open>The five ways the first half of \<open>onmessage\<close> can end.\<close>

lemma schedule_audio_cases:
  obtains
    (unreadable) e where "schedule_audio t n m s = (s, [], Throw e)"
      and "inline_audio m = Inl e"
  | (skip) "schedule_audio t n m s = (s, [], Continue)"
      and "inline_audio m = Inr None \<or> inline_audio m = Inr (Some [])"
  | (early) b where "schedule_audio t n m s = (s, [], Return)"
      and "inline_audio m = Inr (Some b)" and "b \<noteq> []" and "audioContextRef s = None"
  | (failed) b e where
      "schedule_audio t n m s = (s\<lparr>nextStartTimeRef := max (nextStartTimeRef s) t\<rparr>, [], Throw e)"
      and "inline_audio m = Inr (Some b)" and "b \<noteq> []" and "\<not> decodes b"
  | (queued) b d where
      "schedule_audio t n m s =
         (s\<lparr>nextStartTimeRef := max (nextStartTimeRef s) t + d,
            sourcesRef := sourcesRef s @
              [\<lparr> source_id = n, buffer_duration = d,
                 start_time = Some (max (nextStartTimeRef s) t) \<rparr>]\<rparr>,
          [SourceStart \<lparr> source_id = n, buffer_duration = d,
                         start_time = Some (max (nextStartTimeRef s) t) \<rparr>],
          Continue)"
      and "0 \<le> d" and "inline_audio m = Inr (Some b)" and "b \<noteq> []"
      and "audioContextRef s \<noteq> None" and "decodes b"
proof (cases "inline_audio m")
  case (Inl e)
  then show ?thesis using unreadable by (simp add: schedule_audio_def)
next
  case (Inr payload)
  show ?thesis
  proof (cases payload)
    case None
    then show ?thesis using Inr skip by (simp add: schedule_audio_def)
  next
    case (Some b)
    note Some = Inr [unfolded Some]
  show ?thesis
  proof (cases "b = []")
    case True
    then show ?thesis using Some skip by (simp add: schedule_audio_def)
  next
    case nonempty: False
    show ?thesis
    proof (cases "audioContextRef s")
      case None
      then show ?thesis using Some nonempty early by (simp add: schedule_audio_def)
    next
      case ctx: (Some c)
      show ?thesis
      proof (cases "decode b")
        case (Inl e)
        then show ?thesis using Some nonempty ctx failed [of e b]
          by (simp add: schedule_audio_def decodes_def)
      next
        case bytes: (Inr bytes)
        show ?thesis
        proof (cases "decodeAudioData bytes 24000 1")
          case (Inl e)
          then show ?thesis using Some nonempty ctx bytes failed [of e b]
            by (simp add: schedule_audio_def decodes_def)
        next
          case (Inr buf)
          then show ?thesis
            using Some nonempty ctx bytes queued [of "duration buf" b] duration_nonneg [of buf]
            by (simp add: schedule_audio_def decodes_def Let_def)
        qed
      qed
    qed
  qed
  qed
qed

text \<open>A model turn without \<open>parts\<close> makes the handler throw before anything else: no
  chunk is scheduled and the interruption branch is not reached.\<close>

lemma onmessage_unreadable:
  assumes "serverContent m = Some sc" "modelTurn sc = Some turn" "parts turn = None"
  shows "onmessage t n m s = throws s [] TypeError"
  using assms by (simp add: onmessage_def schedule_audio_def inline_audio_def)

lemma stop_each_started:
  "all_started srcs \<Longrightarrow> stop_each srcs = (map (\<lambda>src. SourceStop (source_id src)) srcs, None)"
  by (induction srcs) (auto simp: all_started_def source_stop_def split: option.splits)

lemma handle_interruption_started:
  assumes "is_interrupted m" "all_started (sourcesRef s)"
  shows "handle_interruption m s =
           returns (s\<lparr>sourcesRef := [], nextStartTimeRef := 0\<rparr>)
                   (map (\<lambda>src. SourceStop (source_id src)) (sourcesRef s))"
  using assms by (simp add: handle_interruption_def stop_each_started)

lemma handle_interruption_none:
  "\<not> is_interrupted m \<Longrightarrow> handle_interruption m s = returns s []"
  by (simp add: handle_interruption_def)

text \<open>
  C3. When \<open>onmessage\<close> receives a message carrying the interruption flag, and the
  message is readable (its model turn, if it has one, has its \<open>parts\<close>), and the payload
  of that message, if it has one, is scheduled (an output context exists and the payload
  decodes), and every source in the playback set has been started (as \<open>onmessage\<close> does
  before it registers one), then afterwards the playback set is empty, every source that
  was in it has been stopped, and the cursor is zero, whatever the set and the cursor
  were. A message with a payload that arrives when no output context exists is dropped
  whole, flag included: the state is left as it was.
\<close>

theorem interruption_clears_playback:
  "(is_interrupted message \<and> all_started (sourcesRef s) \<and> payload_scheduled message s \<longrightarrow>
      sourcesRef (post (onmessage t n message s)) = []
      \<and> nextStartTimeRef (post (onmessage t n message s)) = 0
      \<and> thrown (onmessage t n message s) = None
      \<and> (\<forall>src \<in> set (sourcesRef s).
            SourceStop (source_id src) \<in> set (effects (onmessage t n message s))))
   \<and> (inline_audio message = Inr (Some base64) \<and> base64 \<noteq> [] \<and> audioContextRef s = None \<longrightarrow>
        onmessage t n message s = returns s [])"
proof (rule conjI; rule impI)
  assume a: "is_interrupted message \<and> all_started (sourcesRef s) \<and> payload_scheduled message s"
  show "sourcesRef (post (onmessage t n message s)) = []
      \<and> nextStartTimeRef (post (onmessage t n message s)) = 0
      \<and> thrown (onmessage t n message s) = None
      \<and> (\<forall>src \<in> set (sourcesRef s).
            SourceStop (source_id src) \<in> set (effects (onmessage t n message s)))"
  proof (cases rule: schedule_audio_cases [of t n message s])
    case (unreadable e)
    then show ?thesis using a by (simp add: payload_scheduled_def)
  next
    case skip
    then show ?thesis using a
      by (simp add: onmessage_def handle_interruption_started returns_def)
  next
    case (early b)
    then show ?thesis using a by (simp add: payload_scheduled_def)
  next
    case (failed b e)
    then show ?thesis using a by (simp add: payload_scheduled_def)
  next
    case (queued b d)
    let ?s1 = "s\<lparr>nextStartTimeRef := max (nextStartTimeRef s) t + d,
            sourcesRef := sourcesRef s @
              [\<lparr> source_id = n, buffer_duration = d,
                 start_time = Some (max (nextStartTimeRef s) t) \<rparr>]\<rparr>"
    have "all_started (sourcesRef ?s1)"
      using a by (simp add: all_started_def)
    then have "handle_interruption message ?s1 =
           returns (?s1\<lparr>sourcesRef := [], nextStartTimeRef := 0\<rparr>)
                   (map (\<lambda>src. SourceStop (source_id src)) (sourcesRef ?s1))"
      using a by (intro handle_interruption_started) simp_all
    then show ?thesis using queued(1)
      by (simp add: onmessage_def returns_def)
  qed
next
  assume "inline_audio message = Inr (Some base64) \<and> base64 \<noteq> [] \<and> audioContextRef s = None"
  then show "onmessage t n message s = returns s []"
    by (simp add: onmessage_def schedule_audio_def)
qed

lemma decode_one_frame: "decode one_frame = Inr [0, 0]"
  by (simp add: one_frame_def decode_def atob_def strip_padding_def ascii_whitespace_def
                b64_index_def sextet_of_def)

lemma decodeAudio_one_frame:
  "decodeAudioData [0, 0] 24000 (Suc 0) =
     Inr \<lparr> numberOfChannels = 1, frames = 1, rate = 24000, channelData = [[0]] \<rparr>"
  by (simp add: decodeAudioData_def)

lemma one_frame_nonempty: "one_frame \<noteq> []"
  by (simp add: one_frame_def)

lemma decodes_one_frame: "decodes one_frame"
  by (simp add: decodes_def decode_one_frame decodeAudio_one_frame)

lemmas message_defs = onmessage_def schedule_audio_def handle_interruption_def inline_audio_def
  is_interrupted_def server_message_def returns_def throws_def decode_one_frame
  decodeAudio_one_frame one_frame_nonempty duration_def source_stop_def Let_def

theorem interruption_clears_playback_witness:
  "is_interrupted (server_message (Some one_frame) True)
   \<and> all_started (sourcesRef live_example)
   \<and> payload_scheduled (server_message (Some one_frame) True) live_example
   \<and> sourcesRef (post (onmessage 2 8 (server_message (Some one_frame) True) live_example)) = []
   \<and> nextStartTimeRef (post (onmessage 2 8 (server_message (Some one_frame) True) live_example)) = 0
   \<and> effects (onmessage 2 8 (server_message (Some one_frame) True) live_example)
       = [SourceStart \<lparr> source_id = 8, buffer_duration = 1 / 24000, start_time = Some 2 \<rparr>,
          SourceStop 7, SourceStop 8]
   \<and> inline_audio (server_message (Some one_frame) True) = Inr (Some one_frame)
   \<and> audioContextRef initial_state = None
   \<and> onmessage 2 8 (server_message (Some one_frame) True) initial_state = returns initial_state []"
  using interruption_clears_playback
          [of "server_message (Some one_frame) True" live_example 2 8 one_frame]
        interruption_clears_playback
          [of "server_message (Some one_frame) True" initial_state 2 8 one_frame]
  by (simp add: message_defs live_example_def initial_state_def all_started_def
                payload_scheduled_def decodes_one_frame)

theorem interruption_dropped_after_teardown:
  "is_interrupted (server_message (Some one_frame) True)
   \<and> nextStartTimeRef
       (post (onmessage 3 8 (server_message (Some one_frame) True)
                (post (stopEverything live_example)))) = 1"
  by (simp add: message_defs live_example_def stopEverything_def release_defs Let_def)

section \<open>Order of the scheduled chunks\<close>

lemma started_sources_append:
  "started_sources (xs @ ys) = started_sources xs @ started_sources ys"
  by (induction xs rule: started_sources.induct) simp_all

lemma started_sources_stop_each: "started_sources (fst (stop_each srcs)) = []"
  by (induction srcs) (auto simp: source_stop_def split: option.splits)

lemma started_sources_interruption: "started_sources (effects (handle_interruption m s)) = []"
  using started_sources_stop_each [of "sourcesRef s"]
  by (auto simp: handle_interruption_def returns_def throws_def split: prod.splits option.splits)

lemma handle_interruption_cursor:
  "\<not> is_interrupted m \<Longrightarrow> post (handle_interruption m s) = s"
  by (simp add: handle_interruption_def returns_def)

text \<open>What one message schedules: nothing, or one chunk that starts at the maximum of
  the cursor and the clock; without the flag the cursor ends at that chunk's end.\<close>

lemma onmessage_started:
  "started_sources (effects (onmessage t n m s)) = []
   \<or> (\<exists>d. 0 \<le> d
         \<and> started_sources (effects (onmessage t n m s))
             = [\<lparr> source_id = n, buffer_duration = d,
                  start_time = Some (max (nextStartTimeRef s) t) \<rparr>]
         \<and> (\<not> is_interrupted m \<longrightarrow>
               nextStartTimeRef (post (onmessage t n m s)) = max (nextStartTimeRef s) t + d))"
proof (cases rule: schedule_audio_cases [of t n m s])
  case (unreadable e)
  then show ?thesis by (simp add: onmessage_def throws_def)
next
  case skip
  then show ?thesis
    by (simp add: onmessage_def started_sources_interruption Let_def)
next
  case (early b)
  then show ?thesis by (simp add: onmessage_def returns_def)
next
  case (failed b e)
  then show ?thesis by (simp add: onmessage_def throws_def)
next
  case (queued b d)
  then show ?thesis
    by (simp add: onmessage_def started_sources_interruption handle_interruption_cursor Let_def)
qed

lemma onmessage_cursor:
  assumes m: "\<not> is_interrupted m"
  shows "nextStartTimeRef s \<le> nextStartTimeRef (post (onmessage t n m s))"
proof (cases rule: schedule_audio_cases [of t n m s])
  case (unreadable e)
  then show ?thesis by (simp add: onmessage_def throws_def)
next
  case skip
  then show ?thesis using m
    by (simp add: onmessage_def handle_interruption_cursor Let_def)
next
  case (early b)
  then show ?thesis by (simp add: onmessage_def returns_def)
next
  case (failed b e)
  then show ?thesis by (simp add: onmessage_def throws_def)
next
  case (queued b d)
  then show ?thesis using m
    by (simp add: onmessage_def handle_interruption_cursor Let_def)
qed

lemma onmessage_bounds:
  assumes "\<not> is_interrupted m" "src \<in> set (started_sources (effects (onmessage t n m s)))"
  shows "nextStartTimeRef s \<le> chunk_start src"
    and "chunk_end src \<le> nextStartTimeRef (post (onmessage t n m s))"
  using assms onmessage_started [of t n m s]
  by (auto simp: chunk_start_def chunk_end_def)

lemma receive_bounds:
  "uninterrupted arrivals \<Longrightarrow>
   nextStartTimeRef s \<le> nextStartTimeRef (fst (receive arrivals s))
   \<and> (\<forall>src \<in> set (scheduled arrivals s). nextStartTimeRef s \<le> chunk_start src)"
proof (induction arrivals arbitrary: s)
  case Nil
  then show ?case by (simp add: scheduled_def)
next
  case (Cons a arrivals)
  obtain t n m where a: "a = (t, n, m)" by (cases a)
  let ?s1 = "post (onmessage t n m s)"
  from Cons.prems a have m: "\<not> is_interrupted m" and rest: "uninterrupted arrivals"
    by (simp_all add: uninterrupted_def)
  have step: "nextStartTimeRef s \<le> nextStartTimeRef ?s1"
    by (rule onmessage_cursor [OF m])
  from Cons.IH [OF rest, of ?s1]
  have ih: "nextStartTimeRef ?s1 \<le> nextStartTimeRef (fst (receive arrivals ?s1))"
    "\<forall>src \<in> set (scheduled arrivals ?s1). nextStartTimeRef ?s1 \<le> chunk_start src"
    by simp_all
  have "\<forall>src \<in> set (scheduled (a # arrivals) s). nextStartTimeRef s \<le> chunk_start src"
  proof
    fix src assume "src \<in> set (scheduled (a # arrivals) s)"
    then consider "src \<in> set (started_sources (effects (onmessage t n m s)))"
      | "src \<in> set (scheduled arrivals ?s1)"
      by (auto simp: a scheduled_def started_sources_append)
    then show "nextStartTimeRef s \<le> chunk_start src"
    proof cases
      case 1
      then show ?thesis by (rule onmessage_bounds(1) [OF m])
    next
      case 2
      with ih(2) step show ?thesis by fastforce
    qed
  qed
  moreover have "nextStartTimeRef s \<le> nextStartTimeRef (fst (receive (a # arrivals) s))"
    using step ih(1) by (simp add: a)
  ultimately show ?case by simp
qed

lemma scheduled_chain:
  "uninterrupted arrivals \<Longrightarrow>
   sorted_wrt (\<lambda>a b. chunk_end a \<le> chunk_start b) (scheduled arrivals s)"
proof (induction arrivals arbitrary: s)
  case Nil
  then show ?case by (simp add: scheduled_def)
next
  case (Cons a arrivals)
  obtain t n m where a: "a = (t, n, m)" by (cases a)
  let ?s1 = "post (onmessage t n m s)"
  let ?now = "started_sources (effects (onmessage t n m s))"
  from Cons.prems a have m: "\<not> is_interrupted m" and rest: "uninterrupted arrivals"
    by (simp_all add: uninterrupted_def)
  have split: "scheduled (a # arrivals) s = ?now @ scheduled arrivals ?s1"
    by (simp add: a scheduled_def started_sources_append)
  have one: "sorted_wrt (\<lambda>a b. chunk_end a \<le> chunk_start b) ?now"
    using onmessage_started [of t n m s] by auto
  have later: "\<forall>x \<in> set ?now. \<forall>y \<in> set (scheduled arrivals ?s1). chunk_end x \<le> chunk_start y"
  proof (intro ballI)
    fix x y assume x: "x \<in> set ?now" and y: "y \<in> set (scheduled arrivals ?s1)"
    have "chunk_end x \<le> nextStartTimeRef ?s1"
      by (rule onmessage_bounds(2) [OF m x])
    also have "\<dots> \<le> chunk_start y"
      using receive_bounds [OF rest, of ?s1] y by blast
    finally show "chunk_end x \<le> chunk_start y" .
  qed
  show ?case
    unfolding split sorted_wrt_append
    using one Cons.IH [OF rest, of ?s1] later by blast
qed

lemma scheduled_pair:
  assumes two: "scheduled [(t1, n1, m1), (t2, n2, m2)] s = [a, b]"
    and m1: "\<not> is_interrupted m1"
  shows "chunk_start b = max (chunk_end a) t2"
proof -
  let ?s1 = "post (onmessage t1 n1 m1 s)"
  let ?e1 = "started_sources (effects (onmessage t1 n1 m1 s))"
  let ?e2 = "started_sources (effects (onmessage t2 n2 m2 ?s1))"
  have split: "?e1 @ ?e2 = [a, b]"
    using two by (simp add: scheduled_def started_sources_append)
  have l1: "length ?e1 \<le> 1" using onmessage_started [of t1 n1 m1 s] by auto
  have l2: "length ?e2 \<le> 1" using onmessage_started [of t2 n2 m2 ?s1] by auto
  have "length ?e1 + length ?e2 = 2"
    using arg_cong [OF split, of length] by simp
  with l1 l2 have "length ?e1 = 1" "length ?e2 = 1" by linarith+
  with split have e1: "?e1 = [a]" and e2: "?e2 = [b]"
    by (auto simp: length_Suc_conv)
  have enda: "chunk_end a = nextStartTimeRef ?s1"
    using onmessage_started [of t1 n1 m1 s] e1 m1
    by (auto simp: chunk_end_def chunk_start_def)
  have "chunk_start b = max (nextStartTimeRef ?s1) t2"
    using onmessage_started [of t2 n2 m2 ?s1] e2
    by (auto simp: chunk_start_def)
  with enda show ?thesis by simp
qed

text \<open>
  C1. For every sequence of inbound messages none of which carries the interruption
  flag, each chunk scheduled by \<open>onmessage\<close> starts at or after the end (start plus
  duration) of every chunk scheduled before it. For two messages handled one after the
  other that each schedule a chunk, the first without the flag, the second chunk starts
  at the maximum of the first chunk's end and the playback clock read for the second:
  its start exceeds the first chunk's start by exactly the first chunk's duration when
  that clock has not passed the first chunk's end, and is the clock time otherwise.
\<close>

theorem chunks_follow_one_another:
  "(uninterrupted arrivals \<longrightarrow>
      sorted_wrt (\<lambda>a b. chunk_end a \<le> chunk_start b) (scheduled arrivals s))
   \<and> (scheduled [(t1, n1, m1), (t2, n2, m2)] s = [a, b] \<and> \<not> is_interrupted m1 \<longrightarrow>
        chunk_start b = max (chunk_end a) t2
        \<and> (t2 \<le> chunk_end a \<longrightarrow> chunk_start b = chunk_start a + buffer_duration a))"
proof (rule conjI; rule impI)
  assume "uninterrupted arrivals"
  then show "sorted_wrt (\<lambda>a b. chunk_end a \<le> chunk_start b) (scheduled arrivals s)"
    by (rule scheduled_chain)
next
  assume "scheduled [(t1, n1, m1), (t2, n2, m2)] s = [a, b] \<and> \<not> is_interrupted m1"
  then have "chunk_start b = max (chunk_end a) t2"
    using scheduled_pair by blast
  then show "chunk_start b = max (chunk_end a) t2
        \<and> (t2 \<le> chunk_end a \<longrightarrow> chunk_start b = chunk_start a + buffer_duration a)"
    by (simp add: chunk_end_def)
qed

lemmas chunk_defs = scheduled_def uninterrupted_def frame_chunk_def chunk_start_def chunk_end_def

theorem chunks_follow_one_another_witness:
  "uninterrupted [(0, 8, server_message (Some one_frame) False),
                  (1 / 2, 9, server_message (Some one_frame) False)]
   \<and> scheduled [(0, 8, server_message (Some one_frame) False),
                 (1 / 2, 9, server_message (Some one_frame) False)] live_example
       = [frame_chunk 8 1, frame_chunk 9 (24001 / 24000)]
   \<and> \<not> is_interrupted (server_message (Some one_frame) False)
   \<and> 1 / 2 \<le> chunk_end (frame_chunk 8 1)
   \<and> chunk_end (frame_chunk 8 1) \<le> chunk_start (frame_chunk 9 (24001 / 24000))
   \<and> chunk_start (frame_chunk 9 (24001 / 24000))
       = chunk_start (frame_chunk 8 1) + buffer_duration (frame_chunk 8 1)"
  using chunks_follow_one_another
          [of "[(0, 8, server_message (Some one_frame) False),
                (1 / 2, 9, server_message (Some one_frame) False)]" live_example
              0 8 "server_message (Some one_frame) False"
              "1 / 2" 9 "server_message (Some one_frame) False"
              "frame_chunk 8 1" "frame_chunk 9 (24001 / 24000)"]
  by (simp add: chunk_defs message_defs live_example_def)

theorem chunks_overlap_after_interruption:
  "scheduled [(0, 8, server_message (Some one_frame) False),
              (1 / 2, 0, server_message None True),
              (3 / 5, 9, server_message (Some one_frame) False)] live_example
     = [frame_chunk 8 1, frame_chunk 9 (3 / 5)]
   \<and> chunk_start (frame_chunk 9 (3 / 5)) < chunk_end (frame_chunk 8 1)
   \<and> uninterrupted [(2, 8, server_message (Some one_frame) False),
                    (3, 9, server_message (Some one_frame) False)]
   \<and> scheduled [(2, 8, server_message (Some one_frame) False),
                 (3, 9, server_message (Some one_frame) False)] live_example
     = [frame_chunk 8 2, frame_chunk 9 3]
   \<and> chunk_start (frame_chunk 9 3)
       \<noteq> chunk_start (frame_chunk 8 2) + buffer_duration (frame_chunk 8 2)"
  by (simp add: chunk_defs message_defs live_example_def)

section \<open>The cursor and the playback set over a session\<close>

lemma switchCamera_playback:
  "nextStartTimeRef (post (switchCamera env s)) = nextStartTimeRef s"
  "sourcesRef (post (switchCamera env s)) = sourcesRef s"
  by (auto simp: switchCamera_def returns_def Let_def
           split: option.splits prod.splits sum.splits list.splits)

lemma toggleCamera_playback:
  "nextStartTimeRef (post (toggleCamera s)) = nextStartTimeRef s"
  "sourcesRef (post (toggleCamera s)) = sourcesRef s"
  by (auto simp: toggleCamera_def returns_def Let_def split: option.splits list.splits)

lemma producers_post:
  "post (onaudioprocess xs f s) = s"
  "post (frameTick env s) = s"
  "post (onFrameBlob b f s) = s"
  by (auto simp: onaudioprocess_def frameTick_def onFrameBlob_def returns_def throws_def
           split: option.splits sum.splits prod.splits)

lemma teardown_post:
  "nextStartTimeRef (post (onerror s)) = nextStartTimeRef s"
  "sourcesRef (post (onerror s)) = []"
  "nextStartTimeRef (post (onrejected s)) = nextStartTimeRef s"
  "sourcesRef (post (onrejected s)) = []"
  by (simp_all add: onerror_def onrejected_def Let_def stopEverything_refs)

text \<open>Every callback but \<open>onmessage\<close> leaves the cursor where it is.\<close>

lemma handle_cursor_same:
  "(\<forall>t n m. ev \<noteq> Message t n m) \<Longrightarrow>
   nextStartTimeRef (post (handle ev s)) = nextStartTimeRef s"
  by (cases ev)
     (simp_all add: onopen_def onended_def onclose_def returns_def teardown_post
        stopEverything_refs toggleCamera_playback switchCamera_playback producers_post)

lemma handle_cursor:
  assumes "\<not> interrupting ev"
  shows "nextStartTimeRef s \<le> nextStartTimeRef (post (handle ev s))"
proof (cases "\<exists>t n m. ev = Message t n m")
  case True
  then show ?thesis using assms by (auto simp: onmessage_cursor)
next
  case False
  then show ?thesis using handle_cursor_same [of ev s] by simp
qed

lemma ordered_empty: "sourcesRef s = [] \<Longrightarrow> schedule_ordered s"
  by (simp add: schedule_ordered_def)

lemma ordered_same:
  "schedule_ordered s \<Longrightarrow> sourcesRef s' = sourcesRef s \<Longrightarrow>
   nextStartTimeRef s \<le> nextStartTimeRef s' \<Longrightarrow> schedule_ordered s'"
  by (auto simp: schedule_ordered_def list_all_iff)

lemma ordered_filter:
  "schedule_ordered s \<Longrightarrow> sourcesRef s' = filter P (sourcesRef s) \<Longrightarrow>
   nextStartTimeRef s' = nextStartTimeRef s \<Longrightarrow> schedule_ordered s'"
  by (auto simp: schedule_ordered_def list_all_iff sorted_wrt_filter)

lemma ordered_queued:
  assumes "schedule_ordered s" "0 \<le> d"
  shows "schedule_ordered
           (s\<lparr>nextStartTimeRef := max (nextStartTimeRef s) t + d,
              sourcesRef := sourcesRef s @
                [\<lparr> source_id = n, buffer_duration = d,
                   start_time = Some (max (nextStartTimeRef s) t) \<rparr>]\<rparr>)"
  using assms
  by (fastforce simp: schedule_ordered_def list_all_iff sorted_wrt_append chunk_end_def
        chunk_start_def)

lemma ordered_interruption:
  "schedule_ordered s \<Longrightarrow> schedule_ordered (post (handle_interruption m s))"
  by (auto simp: handle_interruption_def returns_def throws_def ordered_empty
           split: prod.splits option.splits)

lemma ordered_onmessage:
  assumes "schedule_ordered s"
  shows "schedule_ordered (post (onmessage t n m s))"
proof (cases rule: schedule_audio_cases [of t n m s])
  case (unreadable e)
  then show ?thesis using assms by (simp add: onmessage_def throws_def)
next
  case skip
  then show ?thesis using assms
    by (simp add: onmessage_def Let_def ordered_interruption)
next
  case (early b)
  then show ?thesis using assms by (simp add: onmessage_def returns_def)
next
  case (failed b e)
  have "schedule_ordered (s\<lparr>nextStartTimeRef := max (nextStartTimeRef s) t\<rparr>)"
    by (rule ordered_same [OF assms]) simp_all
  then show ?thesis using failed by (simp add: onmessage_def throws_def)
next
  case (queued b d)
  then show ?thesis
    using ordered_interruption [OF ordered_queued [OF assms queued(2), where t = t and n = n], of m]
    by (simp add: onmessage_def Let_def)
qed

lemma ordered_handle:
  assumes "schedule_ordered s"
  shows "schedule_ordered (post (handle ev s))"
proof (cases ev)
  case (Message t n m)
  then show ?thesis using assms by (simp add: ordered_onmessage)
next
  case (Ended n)
  then show ?thesis
    using ordered_filter [OF assms, of "post (onended n s)" "\<lambda>src. source_id src \<noteq> n"]
    by (simp add: onended_def returns_def)
next
  case (Open h)
  then show ?thesis
    using ordered_same [OF assms, of "post (onopen h s)"] by (simp add: onopen_def returns_def)
next
  case Closed
  then show ?thesis
    using ordered_same [OF assms, of "post (onclose s)"] by (simp add: onclose_def returns_def)
next
  case Toggle
  then show ?thesis
    using ordered_same [OF assms, of "post (toggleCamera s)"] by (simp add: toggleCamera_playback)
next
  case (Switch env)
  then show ?thesis
    using ordered_same [OF assms, of "post (switchCamera env s)"]
    by (simp add: switchCamera_playback)
qed (simp_all add: assms producers_post ordered_empty teardown_post stopEverything_refs)

lemma connect_sources: "sourcesRef s = [] \<Longrightarrow> sourcesRef (post (connect env s)) = []"
  by (auto simp: connect_def connect_failed_def returns_def Let_def stopEverything_refs
           split: sum.splits prod.splits)

lemma session_ordered: "clean_session_state s \<Longrightarrow> schedule_ordered s"
proof (induction rule: clean_session_state.induct)
  case (started s env)
  then show ?case by (simp add: ordered_empty connect_sources)
next
  case (after s ev)
  then show ?case by (simp add: ordered_handle)
qed

lemma session_reached: "clean_session_state s \<Longrightarrow> component_state s"
  by (induction rule: clean_session_state.induct) (auto intro: component_state.intros)

lemma connect_cursor:
  "newContexts env = Inr contexts \<Longrightarrow> nextStartTimeRef (post (connect env s)) = 0"
  by (auto simp: connect_def connect_failed_def returns_def Let_def stopEverything_refs
           split: sum.splits prod.splits)

text \<open>
  C5. Every callback other than a message carrying the interruption flag leaves the
  cursor where it was or moves it forward (\<open>onmessage\<close> by the maximum with the clock
  and by the chunk's duration), in every state. \<open>connect\<close> is the other reset: once it
  has its audio contexts it sets the cursor to zero for the new playback clock, whatever
  the cursor was. In every state of a session that \<open>connect\<close> started on an empty
  playback set, the chunks of the Active Playback Set are ordered in time: each ends
  before any chunk queued after it starts, and none ends after the cursor, so no two of
  them overlap on the output.
\<close>

theorem cursor_monotone_no_overlap:
  "(\<not> interrupting ev \<longrightarrow> nextStartTimeRef s \<le> nextStartTimeRef (post (handle ev s)))
   \<and> (newContexts env = Inr contexts \<longrightarrow> nextStartTimeRef (post (connect env s)) = 0)
   \<and> (clean_session_state s \<longrightarrow> component_state s \<and> schedule_ordered s)"
  using handle_cursor [of ev s] connect_cursor [of env contexts s]
    session_ordered [of s] session_reached [of s]
  by blast

lemma connect_granted:
  "post (connect granted_env initial_state)
     = \<lparr> connected = False, isCameraActive = True, facingMode = User,
         status = ''Connecting...'', error = None, sessionRef = Some 1,
         audioContextRef = Some 2, inputAudioContextRef = Some 3, nextStartTimeRef = 0,
         sourcesRef = [],
         streamRef = Some [\<lparr> track_id = 5, video = False, enabled = True \<rparr>,
                           \<lparr> track_id = 6, video = True, enabled = True \<rparr>],
         frameIntervalRef = None \<rparr>"
  by (simp add: connect_def granted_env_def initial_state_def returns_def Let_def)

theorem cursor_monotone_no_overlap_witness:
  "\<not> interrupting (Message 3 9 (server_message (Some one_frame) False))
   \<and> newContexts granted_env = Inr (3, 2)
   \<and> nextStartTimeRef (post (connect granted_env live_example)) = 0
   \<and> clean_session_state
        (post (handle (Message 2 8 (server_message (Some one_frame) False))
                 (post (connect granted_env initial_state))))
   \<and> sourcesRef
        (post (handle (Message 2 8 (server_message (Some one_frame) False))
                 (post (connect granted_env initial_state)))) = [frame_chunk 8 2]
   \<and> nextStartTimeRef
        (post (handle (Message 2 8 (server_message (Some one_frame) False))
                 (post (connect granted_env initial_state)))) = 48001 / 24000
   \<and> nextStartTimeRef
        (post (handle (Message 3 9 (server_message (Some one_frame) False))
           (post (handle (Message 2 8 (server_message (Some one_frame) False))
                    (post (connect granted_env initial_state)))))) = 72001 / 24000
   \<and> schedule_ordered
        (post (handle (Message 2 8 (server_message (Some one_frame) False))
                 (post (connect granted_env initial_state))))"
proof -
  let ?s1 = "post (handle (Message 2 8 (server_message (Some one_frame) False))
                 (post (connect granted_env initial_state)))"
  have reach: "clean_session_state ?s1"
    by (intro clean_session_state.intros component_state.mounted) (simp add: initial_state_def)
  have flag: "\<not> interrupting (Message 3 9 (server_message (Some one_frame) False))"
    by (simp add: is_interrupted_def server_message_def)
  have contexts: "newContexts granted_env = Inr (3, 2)"
    by (simp add: granted_env_def)
  from cursor_monotone_no_overlap
         [of "Message 3 9 (server_message (Some one_frame) False)" ?s1 granted_env "(3, 2)"]
    reach flag
  have ordered: "schedule_ordered ?s1" by blast
  from cursor_monotone_no_overlap
         [of "Message 3 9 (server_message (Some one_frame) False)" live_example granted_env "(3, 2)"]
    contexts
  have reset: "nextStartTimeRef (post (connect granted_env live_example)) = 0" by blast
  show ?thesis
    using reach flag contexts ordered reset
    by (simp add: connect_granted message_defs frame_chunk_def)
qed

lemma closed_example_state:
  "closed_example
     = \<lparr> connected = False, isCameraActive = True, facingMode = User,
         status = ''Disconnected'', error = None, sessionRef = Some 1,
         audioContextRef = Some 2, inputAudioContextRef = Some 3,
         nextStartTimeRef = 48001 / 24000, sourcesRef = [frame_chunk 8 2],
         streamRef = Some [\<lparr> track_id = 5, video = False, enabled = True \<rparr>,
                           \<lparr> track_id = 6, video = True, enabled = True \<rparr>],
         frameIntervalRef = None \<rparr>"
  by (simp add: closed_example_def connect_granted message_defs onclose_def frame_chunk_def)

lemma reconnect_closed_example:
  "post (connect granted_env closed_example)
     = \<lparr> connected = False, isCameraActive = True, facingMode = User,
         status = ''Connecting...'', error = None, sessionRef = Some 1,
         audioContextRef = Some 2, inputAudioContextRef = Some 3,
         nextStartTimeRef = 0, sourcesRef = [frame_chunk 8 2],
         streamRef = Some [\<lparr> track_id = 5, video = False, enabled = True \<rparr>,
                           \<lparr> track_id = 6, video = True, enabled = True \<rparr>],
         frameIntervalRef = None \<rparr>"
  by (simp add: closed_example_state connect_def granted_env_def returns_def Let_def)

theorem cursor_reset_by_reconnect:
  "component_state closed_example
   \<and> nextStartTimeRef closed_example = 48001 / 24000
   \<and> nextStartTimeRef (post (connect granted_env closed_example)) = 0
   \<and> component_state
        (post (handle (Message 2 9 (server_message (Some one_frame) False))
                 (post (connect granted_env closed_example))))
   \<and> sourcesRef
        (post (handle (Message 2 9 (server_message (Some one_frame) False))
                 (post (connect granted_env closed_example))))
       = [frame_chunk 8 2, frame_chunk 9 2]
   \<and> chunk_start (frame_chunk 9 2) < chunk_end (frame_chunk 8 2)
   \<and> chunk_start (frame_chunk 8 2) < chunk_end (frame_chunk 9 2)"
proof -
  have reached: "component_state closed_example"
    unfolding closed_example_def by (intro component_state.intros)
  then have "component_state
        (post (handle (Message 2 9 (server_message (Some one_frame) False))
                 (post (connect granted_env closed_example))))"
    by (intro component_state.intros)
  moreover have "sourcesRef
        (post (handle (Message 2 9 (server_message (Some one_frame) False))
                 (post (connect granted_env closed_example))))
       = [frame_chunk 8 2, frame_chunk 9 2]"
    by (simp add: reconnect_closed_example message_defs frame_chunk_def)
  moreover have "nextStartTimeRef closed_example = 48001 / 24000"
    by (simp add: closed_example_state)
  moreover have "nextStartTimeRef (post (connect granted_env closed_example)) = 0"
    by (simp add: reconnect_closed_example)
  moreover have "chunk_start (frame_chunk 9 2) < chunk_end (frame_chunk 8 2)"
    "chunk_start (frame_chunk 8 2) < chunk_end (frame_chunk 9 2)"
    by (simp_all add: chunk_start_def chunk_end_def frame_chunk_def)
  ultimately show ?thesis
    using reached by simp
qed

end
